theory Spec2Isabelle
  imports Main "HOL-Library.Sublist" "HOL-Library.Char_ord" "HOL-Library.List_Lexorder"
begin

section \<open>Volume Locker Pro: a shallow embedding of \<^verbatim>\<open>main.py\<close>\<close>

text \<open>
  The program discovers UPnP/DLNA renderers, reads their description documents and drives
  them with SOAP requests. Its functions are translated one by one, under the names they
  have in the source. What the source obtains from the outside (the HTTP server's answer,
  the XML parser's tree, the datagrams a socket receives, the clock) is an explicit
  argument of the model; what it does to the outside (requests issued, sockets opened and
  closed) is recorded in an explicit state. Output on the Rich console (\<^verbatim>\<open>console.print\<close>,
  \<^verbatim>\<open>console.log\<close>, the \<^verbatim>\<open>Live\<close> spinner) never influences a return value or the control
  flow and is left out.

  Python strings are modelled as \<^typ>\<open>string\<close>; a \<^typ>\<open>char\<close> stands for a code point
  below 256.
\<close>

subsection \<open>Strings\<close>

definition NL :: string where
  "NL = [CHR 0x0A]"




subsection \<open>The SOAP request primitive\<close>

text \<open>
  One call of \<^verbatim>\<open>requests.post\<close> is recorded with the arguments the source passes.
  Dictionaries of headers are maps.
\<close>

record post_request =
  post_url :: string
  post_data :: string
  post_headers :: "string \<rightharpoonup> string"
  post_timeout :: nat

datatype response = Response (status_code: nat) (final_url: string) (content: string)

text \<open>
  What \<^verbatim>\<open>requests.post\<close> and \<^verbatim>\<open>requests.get\<close> do: they return a response object
  (its status code, its \<^verbatim>\<open>url\<close> after redirects, its content), or raise a
  \<^verbatim>\<open>RequestException\<close> (connection refused, timeout, invalid URL, too many redirects).
\<close>

datatype http_outcome = Returned response | RequestException

text \<open>
  The server side is a function from the requests issued so far and the current request
  to the outcome of the current one, so that a server may answer the same request
  differently at different times.
\<close>

type_synonym network = "post_request list \<Rightarrow> post_request \<Rightarrow> http_outcome"

text \<open>
  \<^verbatim>\<open>Response.raise_for_status()\<close> of the requests library raises \<^verbatim>\<open>HTTPError\<close>, a
  \<^verbatim>\<open>RequestException\<close>, for a client error (4xx) or a server error (5xx), and returns
  normally for every other status code.
\<close>

definition raise_for_status :: "response \<Rightarrow> bool" where
  "raise_for_status r = (400 \<le> status_code r \<and> status_code r < 600)"

definition soap_body :: "string \<Rightarrow> string \<Rightarrow> string \<Rightarrow> string" where
  \<open>soap_body service_type action arguments =
     ''<?xml version="1.0" encoding="utf-8"?>'' @ NL @
     ''<s:Envelope xmlns:s="http://schemas.xmlsoap.org/soap/envelope/" s:encodingStyle="http://schemas.xmlsoap.org/soap/encoding/">'' @ NL @
     ''    <s:Body>'' @ NL @
     ''        <u:'' @ action @ '' xmlns:u="'' @ service_type @ ''">'' @ NL @
     ''            '' @ arguments @ NL @
     ''        </u:'' @ action @ ''>'' @ NL @
     ''    </s:Body>'' @ NL @
     ''</s:Envelope>''\<close>

definition final_headers :: "string \<Rightarrow> string \<Rightarrow> (string \<rightharpoonup> string) \<Rightarrow> (string \<rightharpoonup> string)" where
  \<open>final_headers service_type action headers =
     [''Content-Type'' \<mapsto> ''text/xml; charset="utf-8"'',
      ''SOAPACTION'' \<mapsto> ''"'' @ service_type @ ''#'' @ action @ ''"''] ++ headers\<close>

definition soap_post :: "string \<Rightarrow> string \<Rightarrow> string \<Rightarrow> string \<Rightarrow> (string \<rightharpoonup> string) \<Rightarrow> post_request" where
  "soap_post control_url service_type action arguments headers =
     \<lparr>post_url = control_url,
      post_data = soap_body service_type action arguments,
      post_headers = final_headers service_type action headers,
      post_timeout = 5\<rparr>"

text \<open>
  \<^verbatim>\<open>send_soap_request\<close>: the state is the list of requests issued so far; the result is
  \<^verbatim>\<open>None\<close> or the response. The optional \<^verbatim>\<open>headers\<close> argument defaults to the empty
  dictionary.
\<close>

definition send_soap_request ::
  "network \<Rightarrow> string \<Rightarrow> string \<Rightarrow> string \<Rightarrow> string \<Rightarrow> (string \<rightharpoonup> string) option \<Rightarrow>
     post_request list \<Rightarrow> response option \<times> post_request list" where
  "send_soap_request net control_url service_type action arguments headers sent =
     (let headers = (case headers of None \<Rightarrow> Map.empty | Some h \<Rightarrow> h);
          req = soap_post control_url service_type action arguments headers;
          sent' = sent @ [req]
      in case net sent req of
           RequestException \<Rightarrow> (None, sent')
         | Returned response \<Rightarrow>
             if raise_for_status response then (None, sent') else (Some response, sent'))"

subsection \<open>Device records\<close>

text \<open>
  A device record is the dictionary built by \<^verbatim>\<open>parse_device_descriptions\<close>; an entry of
  its \<^verbatim>\<open>services\<close> dictionary always has the two keys \<^verbatim>\<open>type\<close> and \<^verbatim>\<open>url\<close>. The control
  functions read \<^verbatim>\<open>services\<close> with \<^verbatim>\<open>.get('services', {})\<close>, so the key may be absent.
\<close>

record service_entry =
  stype :: string
  url :: string

record device_info =
  location :: string
  friendly_name :: string
  services :: "(string \<rightharpoonup> service_entry) option"

definition get_services :: "device_info \<Rightarrow> (string \<rightharpoonup> service_entry)" where
  "get_services d = (case services d of None \<Rightarrow> Map.empty | Some m \<Rightarrow> m)"

subsection \<open>Control functions\<close>


definition play_args :: string where
  "play_args = ''<InstanceID>0</InstanceID><Speed>1</Speed>''"




subsection \<open>Description documents\<close>

text \<open>
  An \<^verbatim>\<open>xml.etree.ElementTree.Element\<close>: its tag (a namespaced tag is written
  \<^verbatim>\<open>{namespace}local\<close>), its \<^verbatim>\<open>text\<close> (here \<open>etext\<close>; \<^verbatim>\<open>None\<close> when the element has no text before its
  first child) and its children in document order.
\<close>

datatype element = Element (tag: string) (etext: "string option") (children: "element list")

definition UPNP_NS_root :: string where
  "UPNP_NS_root = ''urn:schemas-upnp-org:device-1-0''"

text \<open>The tag that the path step \<^verbatim>\<open>root:name\<close> selects under \<^verbatim>\<open>UPNP_NS\<close>.\<close>

definition root_tag :: "string \<Rightarrow> string" where
  "root_tag name = ''{'' @ UPNP_NS_root @ ''}'' @ name"

text \<open>
  \<^verbatim>\<open>e.find('root:name', UPNP_NS)\<close> is the first child of \<^verbatim>\<open>e\<close> with that tag,
  \<^verbatim>\<open>e.findall('root:name', UPNP_NS)\<close> are all such children, and
  \<^verbatim>\<open>e.find('.//root:name', UPNP_NS)\<close> is the first element with that tag among the
  descendants of \<^verbatim>\<open>e\<close> (at any depth, \<^verbatim>\<open>e\<close> itself excluded) in document order.
\<close>

fun descendants :: "element \<Rightarrow> element list" where
  "descendants (Element t x cs) = concat (map (\<lambda>c. c # descendants c) cs)"

definition find_child :: "string \<Rightarrow> element \<Rightarrow> element option" where
  "find_child name e = List.find (\<lambda>c. tag c = root_tag name) (children e)"

definition findall_children :: "string \<Rightarrow> element \<Rightarrow> element list" where
  "findall_children name e = filter (\<lambda>c. tag c = root_tag name) (children e)"

definition find_descendant :: "string \<Rightarrow> element \<Rightarrow> element option" where
  "find_descendant name e = List.find (\<lambda>c. tag c = root_tag name) (descendants e)"

text \<open>\<^verbatim>\<open>str.isspace\<close> on one code point below 256, and \<^verbatim>\<open>str.strip()\<close>.\<close>

definition isspace :: "char \<Rightarrow> bool" where
  "isspace c = (let n = of_char c :: nat in
     (9 \<le> n \<and> n \<le> 13) \<or> (28 \<le> n \<and> n \<le> 32) \<or> n = 133 \<or> n = 160)"

definition strip :: "string \<Rightarrow> string" where
  "strip s = rev (dropWhile isspace (rev (dropWhile isspace s)))"

text \<open>
  The body of the loop over the services of the service list: the entry is recorded when
  both nodes exist and have text. \<^verbatim>\<open>urljoin\<close> (of \<^verbatim>\<open>urllib.parse\<close>) is a parameter, taken
  to return a URL for every base and reference.
\<close>

definition record_service ::
  "(string \<Rightarrow> string \<Rightarrow> string) \<Rightarrow> string \<Rightarrow> (string \<rightharpoonup> service_entry) \<Rightarrow> element \<Rightarrow>
     (string \<rightharpoonup> service_entry)" where
  "record_service urljoin base_url svcs service =
     (case find_child ''serviceType'' service of
        None \<Rightarrow> svcs
      | Some service_type_node \<Rightarrow>
     (case etext service_type_node of
        None \<Rightarrow> svcs
      | Some service_type \<Rightarrow>
     (case find_child ''controlURL'' service of
        None \<Rightarrow> svcs
      | Some control_url_node \<Rightarrow>
     (case etext control_url_node of
        None \<Rightarrow> svcs
      | Some control_url_text \<Rightarrow>
          (let control_url = urljoin base_url control_url_text in
           if sublist ''AVTransport'' service_type
           then svcs(''AVTransport'' \<mapsto> \<lparr>stype = service_type, url = control_url\<rparr>)
           else if sublist ''RenderingControl'' service_type
           then svcs(''RenderingControl'' \<mapsto> \<lparr>stype = service_type, url = control_url\<rparr>)
           else svcs)))))"

text \<open>
  The services dictionary of a device node: empty when it has no service list below it.
\<close>

definition device_services ::
  "(string \<Rightarrow> string \<Rightarrow> string) \<Rightarrow> string \<Rightarrow> element \<Rightarrow> (string \<rightharpoonup> service_entry)" where
  "device_services urljoin base_url device_node =
     (case find_descendant ''serviceList'' device_node of
        None \<Rightarrow> Map.empty
      | Some service_list \<Rightarrow>
          foldl (record_service urljoin base_url) Map.empty
            (findall_children ''service'' service_list))"

text \<open>
  What one iteration of the loop over the locations stores, from the response on: the
  record, or nothing (a \<^verbatim>\<open>continue\<close>, a parse error caught by \<^verbatim>\<open>except Exception\<close>, or
  no recognised service). \<^verbatim>\<open>ET.fromstring\<close> is a parameter: it returns the root element,
  or \<^verbatim>\<open>None\<close> where the parser raises \<^verbatim>\<open>ParseError\<close>.
\<close>

definition describe_device ::
  "(string \<Rightarrow> element option) \<Rightarrow> (string \<Rightarrow> string \<Rightarrow> string) \<Rightarrow> string \<Rightarrow> response \<Rightarrow>
     device_info option" where
  "describe_device fromstring urljoin loc response =
     (case fromstring (content response) of
        None \<Rightarrow> None
      | Some xml_root \<Rightarrow>
     (case find_descendant ''device'' xml_root of
        None \<Rightarrow> None
      | Some device_node \<Rightarrow>
     (case find_child ''friendlyName'' device_node of
        None \<Rightarrow> None
      | Some friendly_name_node \<Rightarrow>
     (case etext friendly_name_node of
        None \<Rightarrow> None
      | Some friendly_name_text \<Rightarrow>
          (let svcs = device_services urljoin (final_url response) device_node;
               d = \<lparr>location = loc, friendly_name = strip friendly_name_text,
                     services = Some svcs\<rparr>
           in if svcs ''AVTransport'' \<noteq> None \<or> svcs ''RenderingControl'' \<noteq> None
              then Some d else None)))))"

text \<open>
  One iteration of the loop of \<^verbatim>\<open>parse_device_descriptions\<close>, on the dictionary
  \<^verbatim>\<open>found_devices\<close>; a \<^verbatim>\<open>RequestException\<close> (raised by \<^verbatim>\<open>requests.get\<close> or by
  \<^verbatim>\<open>raise_for_status\<close>) is passed over.
\<close>

definition visit_location ::
  "(string \<Rightarrow> http_outcome) \<Rightarrow> (string \<Rightarrow> element option) \<Rightarrow> (string \<Rightarrow> string \<Rightarrow> string) \<Rightarrow>
     (string \<rightharpoonup> device_info) \<Rightarrow> string \<Rightarrow> (string \<rightharpoonup> device_info)" where
  "visit_location get fromstring urljoin found_devices loc =
     (case get loc of
        RequestException \<Rightarrow> found_devices
      | Returned response \<Rightarrow>
          if raise_for_status response then found_devices
          else (case describe_device fromstring urljoin loc response of
                  None \<Rightarrow> found_devices
                | Some d \<Rightarrow> found_devices(friendly_name d \<mapsto> d)))"

text \<open>
  \<^verbatim>\<open>parse_device_descriptions\<close>: the set of locations is given as the list of its elements
  in the order the loop visits them.
\<close>

definition parse_device_descriptions ::
  "(string \<Rightarrow> http_outcome) \<Rightarrow> (string \<Rightarrow> element option) \<Rightarrow> (string \<Rightarrow> string \<Rightarrow> string) \<Rightarrow>
     string list \<Rightarrow> (string \<rightharpoonup> device_info)" where
  "parse_device_descriptions get fromstring urljoin locations =
     foldl (visit_location get fromstring urljoin) Map.empty locations"

subsection \<open>Discovery\<close>

text \<open>\<^verbatim>\<open>str.lower\<close> on code points below 256, \<^verbatim>\<open>str.startswith\<close> and \<^verbatim>\<open>str.splitlines\<close>.\<close>

definition lower_char :: "char \<Rightarrow> char" where
  "lower_char c = (let n = of_char c :: nat in
     if (65 \<le> n \<and> n \<le> 90) \<or> (192 \<le> n \<and> n \<le> 222 \<and> n \<noteq> 215) then char_of (n + 32) else c)"

definition lower :: "string \<Rightarrow> string" where
  "lower s = map lower_char s"

definition startswith :: "string \<Rightarrow> string \<Rightarrow> bool" where
  "startswith s p = prefix p s"

definition is_linebreak :: "char \<Rightarrow> bool" where
  "is_linebreak c = (let n = of_char c :: nat in
     (10 \<le> n \<and> n \<le> 13) \<or> (28 \<le> n \<and> n \<le> 30) \<or> n = 133)"

text \<open>
  The second argument is the line read so far. A carriage return followed by a line feed
  is one line boundary, and no empty line is reported after the last boundary.
\<close>

fun splitlines_from :: "string \<Rightarrow> string \<Rightarrow> string list" where
  "splitlines_from [] cur = (if cur = [] then [] else [cur])"
| "splitlines_from [c] cur = (if is_linebreak c then [cur] else [cur @ [c]])"
| "splitlines_from (c # d # cs) cur =
     (if c = CHR 0x0D \<and> d = CHR 0x0A then cur # splitlines_from cs []
      else if is_linebreak c then cur # splitlines_from (d # cs) []
      else splitlines_from (d # cs) (cur @ [c]))"

definition splitlines :: "string \<Rightarrow> string list" where
  "splitlines s = splitlines_from s []"

text \<open>
  \<^verbatim>\<open>line.split(':', 1)\<close>: the line itself when it has no colon, else the text before the
  first colon and the text after it. Element \<^verbatim>\<open>[1]\<close> of the result raises \<^verbatim>\<open>IndexError\<close>
  (here \<open>None\<close>) in the first case.
\<close>

definition split_colon_1 :: "string \<Rightarrow> string list" where
  "split_colon_1 line =
     (case dropWhile (\<lambda>c. c \<noteq> CHR '':'') line of
        [] \<Rightarrow> [line]
      | _ # rest \<Rightarrow> [takeWhile (\<lambda>c. c \<noteq> CHR '':'') line, rest])"

definition item_1 :: "'a list \<Rightarrow> 'a option" where
  "item_1 xs = (case xs of _ # x # _ \<Rightarrow> Some x | _ \<Rightarrow> None)"

text \<open>
  The loop over the lines of one reply, inside the \<^verbatim>\<open>try\<close>: an \<^verbatim>\<open>IndexError\<close> would be
  caught by \<^verbatim>\<open>except Exception\<close>, which ends the loop over this reply and keeps the
  locations added so far.
\<close>

fun scan_lines :: "string list \<Rightarrow> string set \<Rightarrow> string set" where
  "scan_lines [] locations = locations"
| "scan_lines (line # rest) locations =
     (if startswith (lower line) ''location:''
      then (case item_1 (split_colon_1 line) of
              None \<Rightarrow> locations
            | Some v \<Rightarrow> scan_lines rest (insert (strip v) locations))
      else scan_lines rest locations)"

text \<open>
  What one call of \<^verbatim>\<open>sock.recvfrom(2048)\<close> does: it times out after 0.1 s (\<^verbatim>\<open>socket.timeout\<close>),
  raises another \<^verbatim>\<open>Exception\<close> (an \<^verbatim>\<open>OSError\<close>), returns a datagram (given here as the text
  that \<^verbatim>\<open>data.decode('utf-8', errors='ignore')\<close> makes of it), or is interrupted by the user
  (\<^verbatim>\<open>KeyboardInterrupt\<close>, which is not an \<^verbatim>\<open>Exception\<close> and is caught only in \<^verbatim>\<open>main\<close>).
\<close>

datatype recv_outcome = Timeout | RecvError | Datagram string | Interrupt

datatype exn = KeyboardInterrupt

text \<open>The loop \<^verbatim>\<open>for sock in sockets\<close> of one round of the listen window.\<close>

fun poll_sockets :: "(nat \<Rightarrow> recv_outcome) \<Rightarrow> nat list \<Rightarrow> string set \<Rightarrow> exn + string set" where
  "poll_sockets recvfrom [] locations = Inr locations"
| "poll_sockets recvfrom (sock # rest) locations =
     (case recvfrom sock of
        Timeout \<Rightarrow> poll_sockets recvfrom rest locations
      | RecvError \<Rightarrow> poll_sockets recvfrom rest locations
      | Datagram response \<Rightarrow>
          poll_sockets recvfrom rest (scan_lines (splitlines response) locations)
      | Interrupt \<Rightarrow> Inl KeyboardInterrupt)"

text \<open>
  The loop \<^verbatim>\<open>while time.time() - start_time < SSDP_TIMEOUT\<close>. The clock is outside the
  model: the first argument after \<open>recvfrom\<close> is the number of times the test still
  succeeds, the next the number of rounds done. \<open>recvfrom r sock\<close> is what the socket
  yields in round \<open>r\<close>.
\<close>

fun listen ::
  "(nat \<Rightarrow> nat \<Rightarrow> recv_outcome) \<Rightarrow> nat \<Rightarrow> nat \<Rightarrow> nat list \<Rightarrow> string set \<Rightarrow> exn + string set" where
  "listen recvfrom 0 r sockets locations = Inr locations"
| "listen recvfrom (Suc n) r sockets locations =
     (case poll_sockets (recvfrom r) sockets locations of
        Inl e \<Rightarrow> Inl e
      | Inr locations' \<Rightarrow> listen recvfrom n (Suc r) sockets locations')"

text \<open>
  Sockets are numbered in the order \<^verbatim>\<open>socket.socket\<close> creates them. The state of the
  operating system's sockets: those created, and those on which \<^verbatim>\<open>close\<close> was called.
\<close>

record socket_table =
  opened :: "nat list"
  closed :: "nat list"

text \<open>
  What the body of the loop over the interfaces meets: no IPv4 address (\<^verbatim>\<open>continue\<close>), an
  \<^verbatim>\<open>OSError\<close> before a socket exists (from \<^verbatim>\<open>ifaddresses\<close> or \<^verbatim>\<open>socket.socket\<close>), an
  \<^verbatim>\<open>OSError\<close> from \<^verbatim>\<open>bind\<close> on the socket just created, or success.
\<close>

datatype iface_outcome = NoIPv4 | SocketFailed | BindFailed | Bound

fun bind_interfaces ::
  "iface_outcome list \<Rightarrow> nat list \<Rightarrow> socket_table \<Rightarrow> nat list \<times> socket_table" where
  "bind_interfaces [] sockets tbl = (sockets, tbl)"
| "bind_interfaces (iface # rest) sockets tbl =
     (case iface of
        NoIPv4 \<Rightarrow> bind_interfaces rest sockets tbl
      | SocketFailed \<Rightarrow> bind_interfaces rest sockets tbl
      | BindFailed \<Rightarrow>
          bind_interfaces rest sockets (tbl\<lparr>opened := opened tbl @ [length (opened tbl)]\<rparr>)
      | Bound \<Rightarrow>
          bind_interfaces rest (sockets @ [length (opened tbl)])
            (tbl\<lparr>opened := opened tbl @ [length (opened tbl)]\<rparr>))"

text \<open>The loop \<^verbatim>\<open>for sock in sockets: sock.close()\<close>.\<close>

definition close_sockets :: "nat list \<Rightarrow> socket_table \<Rightarrow> socket_table" where
  "close_sockets sockets tbl = foldl (\<lambda>t sock. t\<lparr>closed := closed t @ [sock]\<rparr>) tbl sockets"

text \<open>
  The environment of one discovery call: the interfaces found (\<open>None\<close> when
  \<^verbatim>\<open>netifaces.interfaces()\<close> raises), the rounds the listen window admits, what the sockets
  receive, the HTTP server and XML parser behind the locations, and the order in which
  the loop of \<^verbatim>\<open>parse_device_descriptions\<close> meets the elements of the set of locations.
  Sending the M-SEARCH datagrams changes none of the state modelled here; a failure is
  caught and logged.
\<close>

record environment =
  env_interfaces :: "iface_outcome list option"
  env_rounds :: nat
  env_recvfrom :: "nat \<Rightarrow> nat \<Rightarrow> recv_outcome"
  env_get :: "string \<Rightarrow> http_outcome"
  env_fromstring :: "string \<Rightarrow> element option"
  env_urljoin :: "string \<Rightarrow> string \<Rightarrow> string"
  env_iteration_order :: "string set \<Rightarrow> string list"

definition discover_devices ::
  "environment \<Rightarrow> socket_table \<Rightarrow> (exn + (string \<rightharpoonup> device_info)) \<times> socket_table" where
  "discover_devices env tbl =
     (case env_interfaces env of
        None \<Rightarrow> (Inr Map.empty, tbl)
      | Some ifaces \<Rightarrow>
          (case bind_interfaces ifaces [] tbl of
             (sockets, tbl1) \<Rightarrow>
               if sockets = [] then (Inr Map.empty, tbl1)
               else (case listen (env_recvfrom env) (env_rounds env) 0 sockets {} of
                       Inl e \<Rightarrow> (Inl e, tbl1)
                     | Inr locations \<Rightarrow>
                         (Inr (parse_device_descriptions (env_get env) (env_fromstring env) (env_urljoin env)
                                 (env_iteration_order env locations)),
                          close_sockets sockets tbl1))))"

text \<open>
  The LOCATION values of a list of replies, by the words of the specification: the header
  lines that start with \<^verbatim>\<open>LOCATION:\<close> in any case, and of each what follows these nine
  characters, trimmed.
\<close>

definition spec_location_values :: "string list \<Rightarrow> string list" where
  "spec_location_values replies =
     map (\<lambda>line. strip (drop 9 line))
       (filter (\<lambda>line. prefix ''location:'' (lower line)) (concat (map splitlines replies)))"

text \<open>The replies received in the listen window, in the order they are read.\<close>

fun round_replies :: "(nat \<Rightarrow> recv_outcome) \<Rightarrow> nat list \<Rightarrow> string list" where
  "round_replies rcv [] = []"
| "round_replies rcv (sock # rest) =
     (case rcv sock of Datagram response \<Rightarrow> response # round_replies rcv rest
      | _ \<Rightarrow> round_replies rcv rest)"

fun replies :: "(nat \<Rightarrow> nat \<Rightarrow> recv_outcome) \<Rightarrow> nat \<Rightarrow> nat \<Rightarrow> nat list \<Rightarrow> string list" where
  "replies rcv 0 r sockets = []"
| "replies rcv (Suc n) r sockets = round_replies (rcv r) sockets @ replies rcv n (Suc r) sockets"

subsection \<open>Concrete devices and servers\<close>





text \<open>The server whose n-th answer has the n-th status code of the list, and 200 afterwards.\<close>

definition server_statuses :: "nat list \<Rightarrow> network" where
  "server_statuses codes sent req =
     Returned (Response (if length sent < length codes then codes ! length sent else 200)
                 (post_url req) [])"

definition server_down :: network where
  "server_down sent req = RequestException"

text \<open>A discovery environment with no HTTP server behind the locations.\<close>

definition no_sockets :: socket_table where
  "no_sockets = \<lparr>opened = [], closed = []\<rparr>"

definition offline :: "iface_outcome list \<Rightarrow> nat \<Rightarrow> (nat \<Rightarrow> nat \<Rightarrow> recv_outcome) \<Rightarrow> environment" where
  "offline ifaces n rcv =
     \<lparr>env_interfaces = Some ifaces, env_rounds = n, env_recvfrom = rcv,
      env_get = (\<lambda>loc. RequestException), env_fromstring = (\<lambda>c. None),
      env_urljoin = (\<lambda>b u. b @ u),
      env_iteration_order = sorted_list_of_set\<rparr>"

text \<open>A socket whose every \<^verbatim>\<open>recvfrom\<close> is interrupted, and one that only times out.\<close>

definition interrupted :: "nat \<Rightarrow> nat \<Rightarrow> recv_outcome" where
  "interrupted r sock = Interrupt"

definition silent :: "nat \<Rightarrow> nat \<Rightarrow> recv_outcome" where
  "silent r sock = Timeout"

definition errors_then_silent :: "nat \<Rightarrow> nat \<Rightarrow> recv_outcome" where
  "errors_then_silent r sock = (if r = 0 then RecvError else Timeout)"

text \<open>
  Three replies on two sockets: the same location twice, with the header in different
  case and with different white space around the value, and another location.
\<close>

definition CRLF :: string where
  "CRLF = [CHR 0x0D, CHR 0x0A]"

definition example_recvfrom :: "nat \<Rightarrow> nat \<Rightarrow> recv_outcome" where
  "example_recvfrom r sock =
     (if r = 0 \<and> sock = 0
      then Datagram (''HTTP/1.1 200 OK'' @ CRLF @ ''LOCATION: http://10.0.0.5/d.xml'' @ CRLF @ CRLF)
      else if r = 0 \<and> sock = 1
      then Datagram (''HTTP/1.1 200 OK'' @ CRLF @ ''location:http://10.0.0.5/d.xml  '' @ CRLF)
      else if r = 1 \<and> sock = 0 then Datagram (''Location:   http://10.0.0.9/d.xml'')
      else if r = 1 \<and> sock = 1 then RecvError
      else Timeout)"

text \<open>Description documents, and the server and parser that deliver one of them.\<close>

definition leaf :: "string \<Rightarrow> string \<Rightarrow> element" where
  "leaf name t = Element (root_tag name) (Some t) []"

definition node :: "string \<Rightarrow> element list \<Rightarrow> element" where
  "node name cs = Element (root_tag name) None cs"

definition service_node :: "string \<Rightarrow> string \<Rightarrow> element" where
  "service_node t u = node ''service'' [leaf ''serviceType'' t, leaf ''controlURL'' u]"

definition serve :: "(string \<times> string) list \<Rightarrow> string \<Rightarrow> http_outcome" where
  "serve pages loc =
     (case map_of pages loc of
        None \<Rightarrow> RequestException
      | Some body \<Rightarrow> Returned (Response 200 loc body))"

definition parser :: "(string \<times> element) list \<Rightarrow> string \<Rightarrow> element option" where
  "parser docs c = map_of docs c"

definition concat_url :: "string \<Rightarrow> string \<Rightarrow> string" where
  "concat_url b u = b @ u"

definition av_service :: element where
  "av_service = service_node ''urn:schemas-upnp-org:service:AVTransport:1'' ''/av''"

definition rc_service :: element where
  "rc_service = service_node ''urn:schemas-upnp-org:service:RenderingControl:2'' ''/rc''"

definition tv_device :: element where
  "tv_device = node ''device''
     [leaf ''friendlyName'' '' TV '', node ''serviceList'' [av_service, rc_service]]"

definition tv_doc :: element where
  "tv_doc = node ''root'' [tv_device]"

definition printer_device :: element where
  "printer_device = node ''device''
     [leaf ''friendlyName'' ''Printer'',
      node ''serviceList'' [service_node ''urn:schemas-upnp-org:service:PrintBasic:1'' ''/p'']]"

definition printer_doc :: element where
  "printer_doc = node ''root'' [printer_device]"

definition blank_name_device :: element where
  "blank_name_device = node ''device''
     [leaf ''friendlyName'' ''   '', node ''serviceList'' [av_service]]"

definition blank_name_doc :: element where
  "blank_name_doc = node ''root'' [blank_name_device]"


definition two_lists_device :: element where
  "two_lists_device = node ''device''
     [leaf ''friendlyName'' ''TV'', node ''serviceList'' [av_service],
      node ''serviceList'' [rc_service]]"

definition two_lists_doc :: element where
  "two_lists_doc = node ''root''
     [two_lists_device,
      node ''device'' [leaf ''friendlyName'' ''Other'', node ''serviceList'' [rc_service]]]"

definition one_list_device :: element where
  "one_list_device = node ''device''
     [leaf ''friendlyName'' ''TV'', node ''serviceList'' [av_service]]"

definition one_list_doc :: element where
  "one_list_doc = node ''root'' [one_list_device]"

definition hub_device :: "element list \<Rightarrow> element" where
  "hub_device inner = node ''device''
     [leaf ''friendlyName'' ''Hub'',
      node ''deviceList'' [node ''device'' (leaf ''friendlyName'' ''Inner'' # inner)]]"

definition embedded_doc :: element where
  "embedded_doc = node ''root'' [hub_device [node ''serviceList'' [av_service]]]"

definition embedded_doc_without :: element where
  "embedded_doc_without = node ''root'' [hub_device []]"

text \<open>The service types recorded under the two capability tags of a device record.\<close>

definition recorded_types :: "device_info \<Rightarrow> string option \<times> string option" where
  "recorded_types d =
     (map_option stype (get_services d ''AVTransport''),
      map_option stype (get_services d ''RenderingControl''))"

text \<open>A server with three pages, and a parser for the documents above.\<close>

definition pages :: "string \<Rightarrow> http_outcome" where
  "pages = serve [(''http://tv/d.xml'', ''tv''), (''http://p/d.xml'', ''printer''),
                  (''http://b/d.xml'', ''blank'')]"

definition xml_parser :: "string \<Rightarrow> element option" where
  "xml_parser = parser [(''tv'', tv_doc), (''printer'', printer_doc), (''blank'', blank_name_doc),
                        (''two'', two_lists_doc), (''one'', one_list_doc),
                        (''embedded'', embedded_doc), (''without'', embedded_doc_without)]"

subsection \<open>The volume lock\<close>















section \<open>Properties\<close>

subsection \<open>The SOAP request primitive\<close>


text \<open>
  C7, as amended. \<^verbatim>\<open>send_soap_request\<close> returns \<^verbatim>\<open>None\<close> when \<^verbatim>\<open>requests.post\<close> raises a
  \<^verbatim>\<open>RequestException\<close> and when the response has a status code from 400 to 599; a response
  with any other status code is returned to the caller. In each case exactly the one
  request has been issued.
\<close>

theorem send_soap_request_failure:
  "(net sent (soap_post u t a args Map.empty) = RequestException \<longrightarrow>
      send_soap_request net u t a args None sent = (None, sent @ [soap_post u t a args Map.empty])) \<and>
   (\<forall>r. net sent (soap_post u t a args Map.empty) = Returned r \<longrightarrow>
      send_soap_request net u t a args None sent =
        (if 400 \<le> status_code r \<and> status_code r < 600 then None else Some r,
         sent @ [soap_post u t a args Map.empty]))"
  by (simp add: send_soap_request_def Let_def raise_for_status_def)

theorem send_soap_request_failure_witness:
  "server_down [] (soap_post ''http://h/c'' ''urn:t'' ''Play'' play_args Map.empty) = RequestException \<and>
   send_soap_request server_down ''http://h/c'' ''urn:t'' ''Play'' play_args None [] =
     (None, [soap_post ''http://h/c'' ''urn:t'' ''Play'' play_args Map.empty]) \<and>
   send_soap_request (server_statuses [500]) ''http://h/c'' ''urn:t'' ''Play'' play_args None [] =
     (None, [soap_post ''http://h/c'' ''urn:t'' ''Play'' play_args Map.empty]) \<and>
   send_soap_request (server_statuses [204]) ''http://h/c'' ''urn:t'' ''Play'' play_args None [] =
     (Some (Response 204 ''http://h/c'' []),
      [soap_post ''http://h/c'' ''urn:t'' ''Play'' play_args Map.empty])"
  using send_soap_request_failure [of server_down "[]" "''http://h/c''" "''urn:t''" "''Play''" play_args]
    send_soap_request_failure [of "server_statuses [500]" "[]" "''http://h/c''" "''urn:t''" "''Play''" play_args]
    send_soap_request_failure [of "server_statuses [204]" "[]" "''http://h/c''" "''urn:t''" "''Play''" play_args]
  by (simp add: server_down_def server_statuses_def soap_post_def)

text \<open>
  C7, as stated, fails: a response with status 304 (not a 2xx status) is returned to the
  caller as a success.
\<close>

theorem send_soap_request_304_counterexample:
  "fst (send_soap_request (server_statuses [304]) ''http://h/c'' ''urn:t'' ''Play'' play_args None [])
     = Some (Response 304 ''http://h/c'' [])"
  by (simp add: send_soap_request_def Let_def raise_for_status_def server_statuses_def
      soap_post_def)

subsection \<open>Control functions\<close>





subsection \<open>Discovery: the locations collected\<close>

lemma lower_char_colon: "lower_char (CHR '':'') = CHR '':''"
  by (simp add: lower_char_def)

lemma lower_char_not_colon: "lower_char c = x \<Longrightarrow> x \<noteq> CHR '':'' \<Longrightarrow> c \<noteq> CHR '':''"
  using lower_char_colon by auto

lemma lower_char_unfold:
  "lower_char c =
     (if (65 \<le> (of_char c::nat) \<and> (of_char c::nat) \<le> 90) \<or>
         (192 \<le> (of_char c::nat) \<and> (of_char c::nat) \<le> 222 \<and> (of_char c::nat) \<noteq> 215)
      then char_of ((of_char c::nat) + 32) else c)"
  by (simp add: lower_char_def Let_def)

lemma lower_char_eq_colon: "lower_char c = CHR '':'' \<Longrightarrow> c = CHR '':''"
proof (rule ccontr)
  assume l: "lower_char c = CHR '':''" and n: "c \<noteq> CHR '':''"
  define k where "k = (of_char c :: nat)"
  have up: "(65 \<le> k \<and> k \<le> 90) \<or> (192 \<le> k \<and> k \<le> 222 \<and> k \<noteq> 215)"
  proof (rule ccontr)
    assume "\<not> ?thesis"
    then have "lower_char c = c" unfolding lower_char_unfold k_def by (rule if_not_P)
    with l n show False by simp
  qed
  then have "lower_char c = char_of (k + 32)"
    unfolding lower_char_unfold k_def by (rule if_P)
  with l have "char_of (k + 32) = CHR '':''" by (simp only:)
  then have "(of_char (char_of (k + 32) :: char) :: nat) = of_char (CHR '':'')"
    by (simp only:)
  then have "(k + 32) mod 256 = 58"
    by (simp only: of_char_of) simp
  moreover from up have "k + 32 < 256" by arith
  ultimately have "k + 32 = 58" by simp
  with up show False by arith
qed

lemma lower_Cons_split:
  "map lower_char line = x # xs \<Longrightarrow> \<exists>c r. line = c # r \<and> lower_char c = x \<and> map lower_char r = xs"
  by (cases line) auto

lemma location_line_chars:
  assumes "prefix ''location:'' (lower line)"
  shows "\<exists>c1 c2 c3 c4 c5 c6 c7 c8 r.
           line = c1 # c2 # c3 # c4 # c5 # c6 # c7 # c8 # CHR '':'' # r \<and>
           c1 \<noteq> CHR '':'' \<and> c2 \<noteq> CHR '':'' \<and> c3 \<noteq> CHR '':'' \<and> c4 \<noteq> CHR '':'' \<and>
           c5 \<noteq> CHR '':'' \<and> c6 \<noteq> CHR '':'' \<and> c7 \<noteq> CHR '':'' \<and> c8 \<noteq> CHR '':''"
proof -
  from assms obtain rest where m: "map lower_char line = ''location:'' @ rest"
    unfolding prefix_def lower_def by blast
  from m obtain c1 r1 where 1: "line = c1 # r1" "lower_char c1 = CHR ''l''"
    and m1: "map lower_char r1 = ''ocation:'' @ rest"
    using lower_Cons_split [of line "CHR ''l''" "''ocation:'' @ rest"] by auto
  from m1 obtain c2 r2 where 2: "r1 = c2 # r2" "lower_char c2 = CHR ''o''"
    and m2: "map lower_char r2 = ''cation:'' @ rest"
    using lower_Cons_split [of r1 "CHR ''o''" "''cation:'' @ rest"] by auto
  from m2 obtain c3 r3 where 3: "r2 = c3 # r3" "lower_char c3 = CHR ''c''"
    and m3: "map lower_char r3 = ''ation:'' @ rest"
    using lower_Cons_split [of r2 "CHR ''c''" "''ation:'' @ rest"] by auto
  from m3 obtain c4 r4 where 4: "r3 = c4 # r4" "lower_char c4 = CHR ''a''"
    and m4: "map lower_char r4 = ''tion:'' @ rest"
    using lower_Cons_split [of r3 "CHR ''a''" "''tion:'' @ rest"] by auto
  from m4 obtain c5 r5 where 5: "r4 = c5 # r5" "lower_char c5 = CHR ''t''"
    and m5: "map lower_char r5 = ''ion:'' @ rest"
    using lower_Cons_split [of r4 "CHR ''t''" "''ion:'' @ rest"] by auto
  from m5 obtain c6 r6 where 6: "r5 = c6 # r6" "lower_char c6 = CHR ''i''"
    and m6: "map lower_char r6 = ''on:'' @ rest"
    using lower_Cons_split [of r5 "CHR ''i''" "''on:'' @ rest"] by auto
  from m6 obtain c7 r7 where 7: "r6 = c7 # r7" "lower_char c7 = CHR ''o''"
    and m7: "map lower_char r7 = ''n:'' @ rest"
    using lower_Cons_split [of r6 "CHR ''o''" "''n:'' @ rest"] by auto
  from m7 obtain c8 r8 where 8: "r7 = c8 # r8" "lower_char c8 = CHR ''n''"
    and m8: "map lower_char r8 = '':'' @ rest"
    using lower_Cons_split [of r7 "CHR ''n''" "'':'' @ rest"] by auto
  from m8 obtain c9 r9 where 9: "r8 = c9 # r9" "lower_char c9 = CHR '':''"
    using lower_Cons_split [of r8 "CHR '':''" rest] by auto
  have "c9 = CHR '':''" using 9(2) by (rule lower_char_eq_colon)
  moreover have "c1 \<noteq> CHR '':''" using 1(2) by (rule lower_char_not_colon) simp
  moreover have "c2 \<noteq> CHR '':''" using 2(2) by (rule lower_char_not_colon) simp
  moreover have "c3 \<noteq> CHR '':''" using 3(2) by (rule lower_char_not_colon) simp
  moreover have "c4 \<noteq> CHR '':''" using 4(2) by (rule lower_char_not_colon) simp
  moreover have "c5 \<noteq> CHR '':''" using 5(2) by (rule lower_char_not_colon) simp
  moreover have "c6 \<noteq> CHR '':''" using 6(2) by (rule lower_char_not_colon) simp
  moreover have "c7 \<noteq> CHR '':''" using 7(2) by (rule lower_char_not_colon) simp
  moreover have "c8 \<noteq> CHR '':''" using 8(2) by (rule lower_char_not_colon) simp
  ultimately show ?thesis using 1(1) 2(1) 3(1) 4(1) 5(1) 6(1) 7(1) 8(1) 9(1) by blast
qed

lemma location_line_split:
  assumes "prefix ''location:'' (lower line)"
  shows "split_colon_1 line = [take 8 line, drop 9 line]"
proof -
  from location_line_chars [OF assms] obtain c1 c2 c3 c4 c5 c6 c7 c8 r where
    "line = c1 # c2 # c3 # c4 # c5 # c6 # c7 # c8 # CHR '':'' # r"
    "c1 \<noteq> CHR '':''" "c2 \<noteq> CHR '':''" "c3 \<noteq> CHR '':''" "c4 \<noteq> CHR '':''"
    "c5 \<noteq> CHR '':''" "c6 \<noteq> CHR '':''" "c7 \<noteq> CHR '':''" "c8 \<noteq> CHR '':''"
    by blast
  then show ?thesis by (simp add: split_colon_1_def)
qed

lemma scan_lines_eq:
  "scan_lines lines locs =
     locs \<union> set (map (\<lambda>line. strip (drop 9 line))
                  (filter (\<lambda>line. prefix ''location:'' (lower line)) lines))"
proof (induction lines arbitrary: locs)
  case Nil
  then show ?case by simp
next
  case (Cons line rest)
  show ?case
  proof (cases "prefix ''location:'' (lower line)")
    case True
    then have "item_1 (split_colon_1 line) = Some (drop 9 line)"
      by (simp add: location_line_split item_1_def)
    with True show ?thesis by (simp add: startswith_def Cons.IH)
  next
    case False
    then show ?thesis by (simp add: startswith_def Cons.IH)
  qed
qed

lemma spec_location_values_append:
  "spec_location_values (xs @ ys) = spec_location_values xs @ spec_location_values ys"
  by (simp add: spec_location_values_def)

lemma spec_location_values_Cons:
  "set (spec_location_values (x # xs)) =
     set (map (\<lambda>line. strip (drop 9 line))
            (filter (\<lambda>line. prefix ''location:'' (lower line)) (splitlines x)))
     \<union> set (spec_location_values xs)"
  by (simp add: spec_location_values_def)

lemma poll_sockets_locations:
  "poll_sockets rcv socks locs = Inr L \<Longrightarrow>
     L = locs \<union> set (spec_location_values (round_replies rcv socks))"
proof (induction socks arbitrary: locs)
  case Nil
  then show ?case by (simp add: spec_location_values_def)
next
  case (Cons sock rest)
  show ?case
  proof (cases "rcv sock")
    case Timeout
    with Cons show ?thesis by simp
  next
    case RecvError
    with Cons show ?thesis by simp
  next
    case (Datagram response)
    with Cons.prems have "poll_sockets rcv rest (scan_lines (splitlines response) locs) = Inr L"
      by simp
    then have "L = scan_lines (splitlines response) locs
                   \<union> set (spec_location_values (round_replies rcv rest))"
      by (rule Cons.IH)
    with Datagram show ?thesis
      by (simp add: scan_lines_eq spec_location_values_Cons Un_assoc)
  next
    case Interrupt
    with Cons.prems show ?thesis by simp
  qed
qed

lemma listen_locations:
  "listen rcv n r socks locs = Inr L \<Longrightarrow>
     L = locs \<union> set (spec_location_values (replies rcv n r socks))"
proof (induction n arbitrary: r locs)
  case 0
  then show ?case by (simp add: spec_location_values_def)
next
  case (Suc n)
  from Suc.prems obtain L1 where p: "poll_sockets (rcv r) socks locs = Inr L1"
    and l: "listen rcv n (Suc r) socks L1 = Inr L"
    by (auto split: sum.splits)
  from p have "L1 = locs \<union> set (spec_location_values (round_replies (rcv r) socks))"
    by (rule poll_sockets_locations)
  moreover from l have "L = L1 \<union> set (spec_location_values (replies rcv n (Suc r) socks))"
    by (rule Suc.IH)
  ultimately show ?case
    by (simp add: spec_location_values_append Un_assoc)
qed

text \<open>
  C6. When the listen window ends, the set of locations is the set of the trimmed
  LOCATION values of the replies received, so that its size is the number of distinct
  trimmed values: the length of their list without duplicates.
\<close>

theorem discovered_locations_distinct_values:
  assumes "listen rcv n 0 sockets {} = Inr locations"
  shows "locations = set (spec_location_values (replies rcv n 0 sockets)) \<and>
         card locations = length (remdups (spec_location_values (replies rcv n 0 sockets)))"
proof -
  from assms have "locations = {} \<union> set (spec_location_values (replies rcv n 0 sockets))"
    by (rule listen_locations)
  then show ?thesis by (simp add: length_remdups_card_conv)
qed

theorem discovered_locations_distinct_values_witness:
  "listen example_recvfrom 3 0 [0, 1] {} =
     Inr {''http://10.0.0.5/d.xml'', ''http://10.0.0.9/d.xml''} \<and>
   spec_location_values (replies example_recvfrom 3 0 [0, 1]) =
     [''http://10.0.0.5/d.xml'', ''http://10.0.0.5/d.xml'', ''http://10.0.0.9/d.xml''] \<and>
   card {''http://10.0.0.5/d.xml'', ''http://10.0.0.9/d.xml''} = (2::nat)"
proof -
  have l: "listen example_recvfrom 3 0 [0, 1] {} =
     Inr {''http://10.0.0.5/d.xml'', ''http://10.0.0.9/d.xml''}"
    by code_simp
  have v: "spec_location_values (replies example_recvfrom 3 0 [0, 1]) =
     [''http://10.0.0.5/d.xml'', ''http://10.0.0.5/d.xml'', ''http://10.0.0.9/d.xml'']"
    by code_simp
  from discovered_locations_distinct_values [OF l]
  have "card {''http://10.0.0.5/d.xml'', ''http://10.0.0.9/d.xml''} =
        length (remdups (spec_location_values (replies example_recvfrom 3 0 [0, 1])))"
    by blast
  with l v show ?thesis by simp
qed

subsection \<open>Discovery: the sockets\<close>

lemma closed_close_sockets: "closed (close_sockets socks tbl) = closed tbl @ socks"
  unfolding close_sockets_def by (induction socks arbitrary: tbl) simp_all

lemma opened_close_sockets: "opened (close_sockets socks tbl) = opened tbl"
  unfolding close_sockets_def by (induction socks arbitrary: tbl) simp_all

lemma bind_interfaces_opened:
  "bind_interfaces ifaces socks tbl = (socks', tbl') \<Longrightarrow> set socks \<subseteq> set (opened tbl) \<Longrightarrow>
     set socks' \<subseteq> set (opened tbl') \<and> closed tbl' = closed tbl"
proof (induction ifaces arbitrary: socks tbl)
  case Nil
  then show ?case by simp
next
  case (Cons iface rest)
  show ?case
  proof (cases iface)
    case NoIPv4
    with Cons.prems Cons.IH [of socks tbl] show ?thesis by simp
  next
    case SocketFailed
    with Cons.prems Cons.IH [of socks tbl] show ?thesis by simp
  next
    case BindFailed
    with Cons.prems
      Cons.IH [of socks "tbl\<lparr>opened := opened tbl @ [length (opened tbl)]\<rparr>"]
    show ?thesis by auto
  next
    case Bound
    with Cons.prems
      Cons.IH [of "socks @ [length (opened tbl)]" "tbl\<lparr>opened := opened tbl @ [length (opened tbl)]\<rparr>"]
    show ?thesis by auto
  qed
qed

lemma poll_sockets_returns:
  "\<forall>s\<in>set socks. rcv s \<noteq> Interrupt \<Longrightarrow> \<exists>L. poll_sockets rcv socks locs = Inr L"
proof (induction socks arbitrary: locs)
  case Nil
  then show ?case by simp
next
  case (Cons sock rest)
  then show ?case by (cases "rcv sock") simp_all
qed

lemma listen_returns:
  "\<forall>i<n. \<forall>s\<in>set socks. rcv (r + i) s \<noteq> Interrupt \<Longrightarrow> \<exists>L. listen rcv n r socks locs = Inr L"
proof (induction n arbitrary: r locs)
  case 0
  then show ?case by simp
next
  case (Suc n)
  from Suc.prems have "\<forall>s\<in>set socks. rcv r s \<noteq> Interrupt" by force
  then obtain L1 where p: "poll_sockets (rcv r) socks locs = Inr L1"
    using poll_sockets_returns by blast
  from Suc.prems have "\<forall>i<n. \<forall>s\<in>set socks. rcv (Suc r + i) s \<noteq> Interrupt" by force
  then obtain L where "listen rcv n (Suc r) socks L1 = Inr L"
    using Suc.IH by blast
  with p show ?case by simp
qed

text \<open>
  C8, as amended. When no \<^verbatim>\<open>recvfrom\<close> of the listen window is interrupted, the call
  returns normally, whatever timeouts and receive errors occur, and every socket that was
  bound (the sockets of the list \<^verbatim>\<open>sockets\<close>, all of them opened by this call) has been
  closed when it returns. The early return for an empty list is the case \<open>sockets = []\<close>.
\<close>

theorem discover_devices_closes_bound_sockets:
  assumes "env_interfaces env = Some ifaces"
    and "bind_interfaces ifaces [] tbl = (sockets, tbl1)"
    and "\<forall>r<env_rounds env. \<forall>s\<in>set sockets. env_recvfrom env r s \<noteq> Interrupt"
  shows "\<exists>devices tbl'. discover_devices env tbl = (Inr devices, tbl') \<and>
           set sockets \<subseteq> set (opened tbl') \<and> set sockets \<subseteq> set (closed tbl')"
proof (cases "sockets = []")
  case True
  with assms(1,2) show ?thesis by (simp add: discover_devices_def)
next
  case False
  from assms(3) have "\<forall>i<env_rounds env. \<forall>s\<in>set sockets. env_recvfrom env (0 + i) s \<noteq> Interrupt"
    by simp
  then obtain L where l: "listen (env_recvfrom env) (env_rounds env) 0 sockets {} = Inr L"
    using listen_returns by blast
  from assms(2) have "set sockets \<subseteq> set (opened tbl1)"
    using bind_interfaces_opened [of ifaces "[]" tbl sockets tbl1] by simp
  with assms(1,2) False l show ?thesis
    by (simp add: discover_devices_def closed_close_sockets opened_close_sockets)
qed

theorem discover_devices_closes_bound_sockets_witness:
  "bind_interfaces [NoIPv4, Bound, Bound] [] no_sockets = ([0, 1], \<lparr>opened = [0, 1], closed = []\<rparr>) \<and>
   discover_devices (offline [NoIPv4, Bound, Bound] 2 errors_then_silent) no_sockets =
     (Inr Map.empty, \<lparr>opened = [0, 1], closed = [0, 1]\<rparr>) \<and>
   (\<exists>devices tbl'.
      discover_devices (offline [NoIPv4, Bound, Bound] 2 errors_then_silent) no_sockets =
        (Inr devices, tbl') \<and>
      set [0, 1] \<subseteq> set (opened tbl') \<and> set [0, 1] \<subseteq> set (closed tbl'))"
proof -
  have b: "bind_interfaces [NoIPv4, Bound, Bound] [] no_sockets =
      ([0, 1], \<lparr>opened = [0, 1], closed = []\<rparr>)"
    by (simp add: no_sockets_def)
  have e: "discover_devices (offline [NoIPv4, Bound, Bound] 2 errors_then_silent) no_sockets =
     (Inr Map.empty, \<lparr>opened = [0, 1], closed = [0, 1]\<rparr>)"
    by (simp add: discover_devices_def offline_def no_sockets_def close_sockets_def
        parse_device_descriptions_def errors_then_silent_def eval_nat_numeral)
  have i: "env_interfaces (offline [NoIPv4, Bound, Bound] 2 errors_then_silent) =
      Some [NoIPv4, Bound, Bound]"
    by (simp add: offline_def)
  have n: "\<forall>r<env_rounds (offline [NoIPv4, Bound, Bound] 2 errors_then_silent).
      \<forall>s\<in>set [0, 1]. env_recvfrom (offline [NoIPv4, Bound, Bound] 2 errors_then_silent) r s \<noteq> Interrupt"
    by (simp add: offline_def errors_then_silent_def)
  from discover_devices_closes_bound_sockets [OF i b n] b e show ?thesis by blast
qed

text \<open>
  C8, as stated, fails: a \<^verbatim>\<open>KeyboardInterrupt\<close> raised in \<^verbatim>\<open>recvfrom\<close> leaves the call with
  the socket it opened still open.
\<close>

theorem discover_devices_interrupt_counterexample:
  "discover_devices (offline [Bound] 1 interrupted) no_sockets =
     (Inl KeyboardInterrupt, \<lparr>opened = [0], closed = []\<rparr>)"
  by (simp add: discover_devices_def offline_def no_sockets_def interrupted_def)

text \<open>
  A socket whose \<^verbatim>\<open>bind\<close> fails is never put on the list, and is not closed either.
\<close>

lemma bind_failed_socket_stays_open:
  "snd (discover_devices (offline [Bound, BindFailed] 1 silent) no_sockets) =
     \<lparr>opened = [0, 1], closed = [0]\<rparr>"
  by (simp add: discover_devices_def offline_def no_sockets_def close_sockets_def silent_def)

subsection \<open>Description documents: classification of services\<close>









subsection \<open>Description documents: the records kept\<close>

lemma describe_device_Some:
  assumes "describe_device fs uj loc r = Some d"
  shows "\<exists>xml_root device_node fnn t.
           fs (content r) = Some xml_root \<and>
           find_descendant ''device'' xml_root = Some device_node \<and>
           find_child ''friendlyName'' device_node = Some fnn \<and> etext fnn = Some t \<and>
           d = \<lparr>location = loc, friendly_name = strip t,
                 services = Some (device_services uj (final_url r) device_node)\<rparr> \<and>
           (device_services uj (final_url r) device_node ''AVTransport'' \<noteq> None \<or>
            device_services uj (final_url r) device_node ''RenderingControl'' \<noteq> None)"
  using assms
  by (auto simp: describe_device_def Let_def split: option.splits if_splits)

lemma describe_device_capability:
  assumes "describe_device fs uj loc r = Some d"
  shows "''AVTransport'' \<in> dom (get_services d) \<or> ''RenderingControl'' \<in> dom (get_services d)"
  using describe_device_Some [OF assms] by (auto simp: get_services_def)

lemma describe_device_location:
  assumes "describe_device fs uj loc r = Some d"
  shows "location d = loc"
  using describe_device_Some [OF assms] by auto

lemma visit_location_origin:
  assumes "visit_location get fs uj found loc name = Some d"
  shows "found name = Some d \<or>
         (\<exists>r. get loc = Returned r \<and> \<not> raise_for_status r \<and>
            describe_device fs uj loc r = Some d \<and> friendly_name d = name)"
  using assms
  by (auto simp: visit_location_def split: http_outcome.splits if_splits option.splits)

lemma foldl_visit_location_origin:
  assumes "foldl (visit_location get fs uj) found locs name = Some d"
  shows "found name = Some d \<or>
         (\<exists>loc r. loc \<in> set locs \<and> get loc = Returned r \<and> \<not> raise_for_status r \<and>
            describe_device fs uj loc r = Some d \<and> friendly_name d = name)"
  using assms
proof (induction locs arbitrary: found)
  case Nil
  then show ?case by simp
next
  case (Cons loc rest)
  from Cons.prems have "foldl (visit_location get fs uj) (visit_location get fs uj found loc) rest name = Some d"
    by simp
  from Cons.IH [OF this] visit_location_origin [of get fs uj found loc name d]
  show ?case by auto
qed

lemma parse_device_descriptions_origin:
  assumes "parse_device_descriptions get fs uj locs name = Some d"
  shows "\<exists>loc r. loc \<in> set locs \<and> get loc = Returned r \<and> \<not> raise_for_status r \<and>
            describe_device fs uj loc r = Some d \<and> friendly_name d = name"
  using foldl_visit_location_origin [of get fs uj Map.empty locs name d] assms
  by (simp add: parse_device_descriptions_def)

text \<open>
  C5. Every record of the mapping that \<^verbatim>\<open>parse_device_descriptions\<close> returns has an
  \<^verbatim>\<open>AVTransport\<close> or a \<^verbatim>\<open>RenderingControl\<close> entry; and a location whose document parses,
  with a device and a friendly name, but yields neither entry, gives no record: no record
  of the mapping has that location.
\<close>

theorem parse_device_descriptions_capability:
  "(parse_device_descriptions get fs uj locations name = Some d \<longrightarrow>
      ''AVTransport'' \<in> dom (get_services d) \<or> ''RenderingControl'' \<in> dom (get_services d)) \<and>
   (get loc = Returned r \<and> fs (content r) = Some xml_root \<and>
    find_descendant ''device'' xml_root = Some device_node \<and>
    find_child ''friendlyName'' device_node = Some fnn \<and> etext fnn = Some t \<and>
    device_services uj (final_url r) device_node ''AVTransport'' = None \<and>
    device_services uj (final_url r) device_node ''RenderingControl'' = None \<longrightarrow>
      describe_device fs uj loc r = None \<and>
      (\<forall>n d'. parse_device_descriptions get fs uj locations n = Some d' \<longrightarrow> location d' \<noteq> loc))"
proof (intro conjI impI)
  assume "parse_device_descriptions get fs uj locations name = Some d"
  from parse_device_descriptions_origin [OF this]
  show "''AVTransport'' \<in> dom (get_services d) \<or> ''RenderingControl'' \<in> dom (get_services d)"
    using describe_device_capability by blast
next
  assume a: "get loc = Returned r \<and> fs (content r) = Some xml_root \<and>
    find_descendant ''device'' xml_root = Some device_node \<and>
    find_child ''friendlyName'' device_node = Some fnn \<and> etext fnn = Some t \<and>
    device_services uj (final_url r) device_node ''AVTransport'' = None \<and>
    device_services uj (final_url r) device_node ''RenderingControl'' = None"
  then show none: "describe_device fs uj loc r = None"
    by (simp add: describe_device_def)
  show "\<forall>n d'. parse_device_descriptions get fs uj locations n = Some d' \<longrightarrow> location d' \<noteq> loc"
  proof (intro allI impI notI)
    fix n d'
    assume p: "parse_device_descriptions get fs uj locations n = Some d'" and l: "location d' = loc"
    from parse_device_descriptions_origin [OF p] obtain loc' r' where
      o: "get loc' = Returned r'" "describe_device fs uj loc' r' = Some d'"
      by blast
    from o(2) have "location d' = loc'" by (rule describe_device_location)
    with l have "loc' = loc" by simp
    with o a have "r' = r" by simp
    with o(2) \<open>loc' = loc\<close> none show False by simp
  qed
qed






text \<open>
  C10, as amended. The record depends on the document only through the first
  \<^verbatim>\<open>device\<close> element below the root in document order, the text of its first
  \<^verbatim>\<open>friendlyName\<close> child, and the \<^verbatim>\<open>service\<close> children of the first \<^verbatim>\<open>serviceList\<close> element
  below that device in document order, at any depth: two documents that agree on these
  give the same result, whatever later service lists and later devices they hold.
\<close>

theorem first_device_first_service_list_only:
  assumes "fs (content r1) = Some root1" and "fs (content r2) = Some root2"
    and "find_descendant ''device'' root1 = Some dev1"
    and "find_descendant ''device'' root2 = Some dev2"
    and "map_option etext (find_child ''friendlyName'' dev1) =
         map_option etext (find_child ''friendlyName'' dev2)"
    and "map_option (findall_children ''service'') (find_descendant ''serviceList'' dev1) =
         map_option (findall_children ''service'') (find_descendant ''serviceList'' dev2)"
    and "final_url r1 = final_url r2"
  shows "describe_device fs uj loc r1 = describe_device fs uj loc r2"
proof -
  have "device_services uj (final_url r1) dev1 = device_services uj (final_url r2) dev2"
    using assms(6,7) by (auto simp: device_services_def split: option.splits)
  moreover have "(case find_child ''friendlyName'' dev1 of None \<Rightarrow> None | Some n \<Rightarrow> etext n) =
                 (case find_child ''friendlyName'' dev2 of None \<Rightarrow> None | Some n \<Rightarrow> etext n)"
    using assms(5)
    by (cases "find_child ''friendlyName'' dev1"; cases "find_child ''friendlyName'' dev2") simp_all
  ultimately show ?thesis
    using assms(1-4)
    by (cases "find_child ''friendlyName'' dev1"; cases "find_child ''friendlyName'' dev2")
      (simp_all add: describe_device_def Let_def split: option.splits)
qed

theorem parse_device_descriptions_capability_witness:
  "map_option location
     (parse_device_descriptions pages xml_parser concat_url
        [''http://tv/d.xml'', ''http://p/d.xml''] ''TV'') = Some ''http://tv/d.xml'' \<and>
   ''AVTransport'' \<in> dom (get_services (the
     (parse_device_descriptions pages xml_parser concat_url
        [''http://tv/d.xml'', ''http://p/d.xml''] ''TV''))) \<and>
   xml_parser ''printer'' = Some printer_doc \<and>
   find_descendant ''device'' printer_doc = Some printer_device \<and>
   describe_device xml_parser concat_url ''http://p/d.xml''
     (Response 200 ''http://p/d.xml'' ''printer'') = None \<and>
   parse_device_descriptions pages xml_parser concat_url
     [''http://tv/d.xml'', ''http://p/d.xml''] ''Printer'' = None"
proof -
  have g: "pages ''http://p/d.xml'' = Returned (Response 200 ''http://p/d.xml'' ''printer'')"
    by (simp add: pages_def serve_def)
  have x: "xml_parser ''printer'' = Some printer_doc"
    by (simp add: xml_parser_def parser_def)
  have d: "find_descendant ''device'' printer_doc = Some printer_device"
    by code_simp
  have f: "find_child ''friendlyName'' printer_device = Some (leaf ''friendlyName'' ''Printer'')"
    by code_simp
  have t: "etext (leaf ''friendlyName'' ''Printer'') = Some ''Printer''"
    by (simp add: leaf_def)
  have a: "device_services concat_url ''http://p/d.xml'' printer_device ''AVTransport'' = None"
    by code_simp
  have r: "device_services concat_url ''http://p/d.xml'' printer_device ''RenderingControl'' = None"
    by code_simp
  have tv: "map_option (\<lambda>d. (location d, get_services d ''AVTransport''))
     (parse_device_descriptions pages xml_parser concat_url
        [''http://tv/d.xml'', ''http://p/d.xml''] ''TV'') =
       Some (''http://tv/d.xml'', Some \<lparr>stype = ''urn:schemas-upnp-org:service:AVTransport:1'',
                                        url = ''http://tv/d.xml/av''\<rparr>)"
    by code_simp
  have pr: "parse_device_descriptions pages xml_parser concat_url
     [''http://tv/d.xml'', ''http://p/d.xml''] ''Printer'' = None"
    by code_simp
  from parse_device_descriptions_capability [of pages xml_parser concat_url
      "[''http://tv/d.xml'', ''http://p/d.xml'']" "''TV''" _ "''http://p/d.xml''"
      "Response 200 ''http://p/d.xml'' ''printer''" printer_doc printer_device
      "leaf ''friendlyName'' ''Printer''" "''Printer''"] g x d f t a r
  have n: "describe_device xml_parser concat_url ''http://p/d.xml''
     (Response 200 ''http://p/d.xml'' ''printer'') = None"
    by simp
  from tv x d n pr show ?thesis by (auto simp: domIff)
qed


theorem first_device_first_service_list_only_witness:
  "describe_device xml_parser concat_url ''http://tv/d.xml'' (Response 200 ''http://tv'' ''two'') =
   describe_device xml_parser concat_url ''http://tv/d.xml'' (Response 200 ''http://tv'' ''one'') \<and>
   find_descendant ''device'' two_lists_doc = Some two_lists_device \<and>
   find_descendant ''device'' one_list_doc = Some one_list_device \<and>
   map_option (\<lambda>d. (friendly_name d, get_services d ''AVTransport'', get_services d ''RenderingControl''))
     (describe_device xml_parser concat_url ''http://tv/d.xml'' (Response 200 ''http://tv'' ''two'')) =
     Some (''TV'', Some \<lparr>stype = ''urn:schemas-upnp-org:service:AVTransport:1'',
                        url = ''http://tv/av''\<rparr>, None)"
proof -
  have x1: "xml_parser (content (Response 200 ''http://tv'' ''two'')) = Some two_lists_doc"
    and x2: "xml_parser (content (Response 200 ''http://tv'' ''one'')) = Some one_list_doc"
    by (simp_all add: xml_parser_def parser_def)
  have d1: "find_descendant ''device'' two_lists_doc = Some two_lists_device"
    and d2: "find_descendant ''device'' one_list_doc = Some one_list_device"
    by code_simp+
  have f: "map_option etext (find_child ''friendlyName'' two_lists_device) =
           map_option etext (find_child ''friendlyName'' one_list_device)"
    by code_simp
  have l: "map_option (findall_children ''service'') (find_descendant ''serviceList'' two_lists_device) =
           map_option (findall_children ''service'') (find_descendant ''serviceList'' one_list_device)"
    by code_simp
  have u: "final_url (Response 200 ''http://tv'' ''two'') = final_url (Response 200 ''http://tv'' ''one'')"
    by simp
  have v: "map_option (\<lambda>d. (friendly_name d, get_services d ''AVTransport'', get_services d ''RenderingControl''))
     (describe_device xml_parser concat_url ''http://tv/d.xml'' (Response 200 ''http://tv'' ''two'')) =
     Some (''TV'', Some \<lparr>stype = ''urn:schemas-upnp-org:service:AVTransport:1'',
                        url = ''http://tv/av''\<rparr>, None)"
    by code_simp
  from first_device_first_service_list_only [where fs = xml_parser and uj = concat_url
      and loc = "''http://tv/d.xml''", OF x1 x2 d1 d2 f l u] d1 d2 v
  show ?thesis by simp
qed

text \<open>
  C10, as stated, fails: the first \<^verbatim>\<open>serviceList\<close> below the first device may be the one of
  an embedded device, and then its entries make the record. Without the embedded device's
  service list the same document gives no record.
\<close>

theorem embedded_device_services_counterexample:
  "find_descendant ''device'' embedded_doc = Some (hub_device [node ''serviceList'' [av_service]]) \<and>
   find_child ''serviceList'' (hub_device [node ''serviceList'' [av_service]]) = None \<and>
   map_option friendly_name
     (describe_device xml_parser concat_url ''http://hub/d.xml''
        (Response 200 ''http://hub'' ''embedded'')) = Some ''Hub'' \<and>
   map_option recorded_types
     (describe_device xml_parser concat_url ''http://hub/d.xml''
        (Response 200 ''http://hub'' ''embedded'')) =
     Some (Some ''urn:schemas-upnp-org:service:AVTransport:1'', None) \<and>
   describe_device xml_parser concat_url ''http://hub/d.xml''
     (Response 200 ''http://hub'' ''without'') = None"
  by code_simp

subsection \<open>The volume lock: the setter loop\<close>







end
